theory Spec2Isabelle
  imports Main "HOL-Library.Word"
begin

section \<open>The algebra module: \<open>Cube\<close> and \<open>Square\<close> on machine integers\<close>

text \<open>
  \<^verbatim>\<open>src/algebra.cc\<close> holds two functions on the C++ type \<^verbatim>\<open>int\<close>:
  \<^verbatim>\<open>int Cube(int number) { return number * number * number; }\<close> and
  \<^verbatim>\<open>int Square(int number) { return number * number; }\<close>.

  The width of \<^verbatim>\<open>int\<close> is fixed by the platform, not by the source, so the
  embedding keeps it as the type parameter \<open>'a\<close> of \<open>'a word\<close>; \<open>32 word\<close> is the
  common instance. A word is a two's-complement bit pattern: \<open>sint\<close> reads it as the
  signed integer it stands for, and \<open>*\<close> on words is the multiplication of the
  hardware, which keeps the low \<open>LENGTH('a)\<close> bits of the product.
\<close>

subsection \<open>The source functions\<close>

definition Cube :: "'a::len word \<Rightarrow> 'a word" where
  "Cube number = number * number * number"

definition Square :: "'a::len word \<Rightarrow> 'a word" where
  "Square number = number * number"

subsection \<open>Vocabulary of the specification\<close>

text \<open>
  \<open>representable w x\<close>: the mathematical integer \<open>x\<close> lies in the range of a
  \<open>w\<close>-bit signed integer, from \<open>- 2 ^ (w - 1)\<close> to \<open>2 ^ (w - 1) - 1\<close>.
\<close>

definition representable :: "nat \<Rightarrow> int \<Rightarrow> bool" where
  "representable w x = (- (2 ^ (w - 1)) \<le> x \<and> x < 2 ^ (w - 1))"

text \<open>
  \<open>wrap_signed w x\<close>: \<open>x\<close> reduced modulo \<open>2 ^ w\<close>, the residue then read as a
  \<open>w\<close>-bit two's-complement number (residues from \<open>2 ^ (w - 1)\<close> on stand for
  negative values).
\<close>

definition wrap_signed :: "nat \<Rightarrow> int \<Rightarrow> int" where
  "wrap_signed w x =
     (let u = x mod 2 ^ w in if u < 2 ^ (w - 1) then u else u - 2 ^ w)"

subsection \<open>The function bodies as programs\<close>

text \<open>
  Whether a call has effects, can fail or can run forever is a property of the
  statements of its body, which a HOL function no longer shows. So the bodies are
  also kept as syntax, in a fragment of C++ that has what an impure body would use: an
  expression can read a global variable or the result of an external call, a
  statement can assign to a global variable, loop or throw.
\<close>

datatype expr =
    Param
  | Lit int
  | Global string
  | Extern
  | Mul expr expr

datatype stmt =
    Return expr
  | Assign string expr
  | Then stmt stmt
  | While expr stmt
  | Throw

text \<open>
  A statement leaves in one of three ways: it falls through to the next statement
  (\<open>Normal\<close>), it returns a value to the caller, or an exception leaves the function.
\<close>

datatype 'v outcome = Normal | Returned 'v | Raised

type_synonym 'a globals = "string \<Rightarrow> 'a word"

text \<open>
  \<open>eval_expr number g e v\<close>: with the parameter bound to \<open>number\<close> and the globals
  \<open>g\<close>, the expression \<open>e\<close> can have the value \<open>v\<close>. \<open>Param\<close> is the parameter
  \<^verbatim>\<open>number\<close>, \<open>Mul\<close> the \<^verbatim>\<open>*\<close> of the integer type. The program does not
  determine what an external call returns, so \<open>Extern\<close> can have every value.
\<close>

inductive eval_expr :: "'a::len word \<Rightarrow> 'a globals \<Rightarrow> expr \<Rightarrow> 'a word \<Rightarrow> bool" where
  eval_Param: "eval_expr number g Param number"
| eval_Lit: "eval_expr number g (Lit k) (word_of_int k)"
| eval_Global: "eval_expr number g (Global x) (g x)"
| eval_Extern: "eval_expr number g Extern v"
| eval_Mul: "eval_expr number g a x \<Longrightarrow> eval_expr number g b y \<Longrightarrow>
    eval_expr number g (Mul a b) (x * y)"

text \<open>
  \<open>exec_stmt number c g (out, g')\<close>: run from the globals \<open>g\<close>, the statement \<open>c\<close>
  can end with the outcome \<open>out\<close> and the globals \<open>g'\<close>. A statement that never ends
  has no outcome at all.
\<close>

inductive exec_stmt ::
  "'a::len word \<Rightarrow> stmt \<Rightarrow> 'a globals \<Rightarrow> 'a word outcome \<times> 'a globals \<Rightarrow> bool" where
  exec_Return: "eval_expr number g e v \<Longrightarrow>
    exec_stmt number (Return e) g (Returned v, g)"
| exec_Assign: "eval_expr number g e v \<Longrightarrow>
    exec_stmt number (Assign x e) g (Normal, g(x := v))"
| exec_Then: "exec_stmt number c g (Normal, g') \<Longrightarrow> exec_stmt number d g' r \<Longrightarrow>
    exec_stmt number (Then c d) g r"
| exec_Then_exit: "exec_stmt number c g (out, g') \<Longrightarrow> out \<noteq> Normal \<Longrightarrow>
    exec_stmt number (Then c d) g (out, g')"
| exec_While_done: "eval_expr number g e 0 \<Longrightarrow>
    exec_stmt number (While e c) g (Normal, g)"
| exec_While_step: "eval_expr number g e v \<Longrightarrow> v \<noteq> 0 \<Longrightarrow>
    exec_stmt number c g (Normal, g') \<Longrightarrow> exec_stmt number (While e c) g' r \<Longrightarrow>
    exec_stmt number (While e c) g r"
| exec_While_exit: "eval_expr number g e v \<Longrightarrow> v \<noteq> 0 \<Longrightarrow>
    exec_stmt number c g (out, g') \<Longrightarrow> out \<noteq> Normal \<Longrightarrow>
    exec_stmt number (While e c) g (out, g')"
| exec_Throw: "exec_stmt number Throw g (Raised, g)"

code_pred exec_stmt .

text \<open>
  The two bodies of \<^verbatim>\<open>src/algebra.cc\<close>, token by token:
  \<^verbatim>\<open>return number * number * number;\<close> (the product associates to the left) and
  \<^verbatim>\<open>return number * number;\<close>.
\<close>

definition Cube_body :: stmt where
  "Cube_body = Return (Mul (Mul Param Param) Param)"

definition Square_body :: stmt where
  "Square_body = Return (Mul Param Param)"

section \<open>Two's-complement arithmetic\<close>

text \<open>
  The library reads a word with \<open>signed_take_bit\<close>. On integers that operation is
  \<open>wrap_signed\<close>: reduce modulo \<open>2 ^ w\<close>, then read residues in the upper half as
  negative.
\<close>

lemma signed_take_bit_wrap:
  "signed_take_bit m k = wrap_signed (Suc m) k" for k :: int
proof -
  define u where "u = k mod 2 ^ Suc m"
  have u0: "0 \<le> u" and u1: "u < 2 ^ Suc m"
    by (simp_all add: u_def)
  have shift: "(k + 2 ^ m) mod 2 ^ Suc m = (u + 2 ^ m) mod 2 ^ Suc m"
    by (simp add: u_def mod_add_left_eq)
  show ?thesis
  proof (cases "u < 2 ^ m")
    case True
    with u0 have "(u + 2 ^ m) mod 2 ^ Suc m = u + 2 ^ m"
      by (intro mod_pos_pos_trivial) simp_all
    with True shift show ?thesis
      by (simp add: signed_take_bit_eq_take_bit_shift take_bit_eq_mod wrap_signed_def
          Let_def u_def)
  next
    case False
    have "(u + 2 ^ m) mod 2 ^ Suc m = (u + 2 ^ m - 2 ^ Suc m) mod 2 ^ Suc m"
      by (simp only: minus_mod_self2)
    also from False u1 have "\<dots> = u + 2 ^ m - 2 ^ Suc m"
      by (intro mod_pos_pos_trivial) simp_all
    finally show ?thesis
      using False shift
      by (simp add: signed_take_bit_eq_take_bit_shift take_bit_eq_mod wrap_signed_def
          Let_def u_def)
  qed
qed

lemma sint_of_int_wrap:
  "sint (word_of_int k :: 'a::len word) = wrap_signed LENGTH('a) k"
proof -
  obtain m where m: "LENGTH('a) = Suc m"
    by (cases "LENGTH('a)") simp_all
  show ?thesis
    by (simp add: sint_sbintrunc' m signed_take_bit_wrap)
qed

lemma wrap_signed_id:
  assumes "representable w x" and "0 < w"
  shows "wrap_signed w x = x"
  using assms signed_take_bit_int_eq_self [of "w - 1" x] signed_take_bit_wrap [of "w - 1" x]
  by (simp add: representable_def)


text \<open>Both functions compute the wrapped image of the mathematical product.\<close>

lemma Square_of_int: "Square n = word_of_int (sint n * sint n)"
  by (simp add: Square_def)

lemma Cube_of_int: "Cube n = word_of_int (sint n * sint n * sint n)"
  by (simp add: Cube_def)

lemma sint_Square: "sint (Square n) = wrap_signed LENGTH('a) (sint n * sint n)"
  for n :: "'a::len word"
  by (simp only: Square_of_int sint_of_int_wrap)

lemma sint_Cube: "sint (Cube n) = wrap_signed LENGTH('a) (sint n * sint n * sint n)"
  for n :: "'a::len word"
  by (simp only: Cube_of_int sint_of_int_wrap)

lemma sint_neg_in_range:
  fixes n :: "'a::len word"
  assumes "representable LENGTH('a) (- sint n)"
  shows "sint (- n) = - sint n"
proof -
  have "- n = word_of_int (- sint n)"
    by simp
  then have "sint (- n) = wrap_signed LENGTH('a) (- sint n)"
    by (simp only: sint_of_int_wrap)
  with assms show ?thesis
    by (simp add: wrap_signed_id)
qed

lemma square_bound_32: "x * x < 2 ^ 31 \<longleftrightarrow> \<bar>x\<bar> \<le> 46340" for x :: int
proof
  assume small: "x * x < 2 ^ 31"
  show "\<bar>x\<bar> \<le> 46340"
  proof (rule ccontr)
    assume "\<not> \<bar>x\<bar> \<le> 46340"
    then have "46341 \<le> \<bar>x\<bar>" by simp
    then have "46341 * 46341 \<le> \<bar>x\<bar> * \<bar>x\<bar>"
      by (intro mult_mono) simp_all
    with small show False by (simp add: abs_mult_self_eq)
  qed
next
  assume "\<bar>x\<bar> \<le> 46340"
  then have "\<bar>x\<bar> * \<bar>x\<bar> \<le> 46340 * 46340"
    by (intro mult_mono) simp_all
  then show "x * x < 2 ^ 31" by (simp add: abs_mult_self_eq)
qed

section \<open>Running the bodies\<close>

inductive_simps eval_Param_iff: "eval_expr number g Param v"

inductive_simps eval_Lit_iff: "eval_expr number g (Lit k) v"

inductive_simps eval_Mul_iff: "eval_expr number g (Mul a b) v"

inductive_simps exec_Return_iff: "exec_stmt number (Return e) g r"

inductive_simps exec_Assign_iff: "exec_stmt number (Assign x e) g r"

inductive_simps exec_Throw_iff: "exec_stmt number Throw g r"

text \<open>
  Each body has exactly one run from every parameter and every state: it returns
  the value of the HOL function and the globals it started from.
\<close>

lemma exec_Square_body_iff:
  "exec_stmt number Square_body g r \<longleftrightarrow> r = (Returned (Square number), g)"
  by (auto simp add: Square_body_def Square_def exec_Return_iff eval_Mul_iff eval_Param_iff)

lemma exec_Cube_body_iff:
  "exec_stmt number Cube_body g r \<longleftrightarrow> r = (Returned (Cube number), g)"
  by (auto simp add: Cube_body_def Cube_def exec_Return_iff eval_Mul_iff eval_Param_iff)

text \<open>
  None of this holds of bodies in general. A body that multiplies by the result of an
  external call has runs with different results, one that assigns changes the
  globals, one that throws returns nothing, and a loop whose condition stays true
  has no run.
\<close>

lemma Extern_body_two_results:
  "exec_stmt number (Return (Mul Param Extern)) g (Returned 0, g)
   \<and> exec_stmt number (Return (Mul Param Extern)) g (Returned number, g)"
  using eval_Mul [OF eval_Param eval_Extern, of number g 0]
    eval_Mul [OF eval_Param eval_Extern, of number g 1]
  by (auto intro: exec_Return)

lemma Assign_body_changes_globals:
  "exec_stmt number (Then (Assign x Param) (Return Param)) g (Returned number, g(x := number))"
  by (rule exec_Then [OF exec_Assign [OF eval_Param] exec_Return [OF eval_Param]])

lemma Throw_body_raises:
  "exec_stmt number Throw g r \<longleftrightarrow> r = (Raised, g)"
  by (simp add: exec_Throw_iff)

lemma While_body_no_run:
  "\<not> exec_stmt number (While (Lit 1) (Assign x Param)) g r"
proof
  assume "exec_stmt number (While (Lit 1) (Assign x Param)) g r"
  then show False
    by (induction number "While (Lit 1) (Assign x Param)" g r rule: exec_stmt.induct)
      (auto simp add: eval_Lit_iff exec_Assign_iff)
qed

section \<open>The claims of the specification\<close>

subsection \<open>Results inside the safe range\<close>

text \<open>
  C1. For every \<open>n\<close> whose square is representable in the integer type, the value
  returned by \<open>Square n\<close> is the mathematical product \<open>n * n\<close>.
\<close>

theorem Square_in_range:
  fixes n :: "'a::len word"
  assumes "representable LENGTH('a) (sint n * sint n)"
  shows "sint (Square n) = sint n * sint n"
  using assms by (simp add: sint_Square wrap_signed_id)

theorem Square_in_range_witness:
  "representable 32 (sint (- 46340 :: 32 word) * sint (- 46340 :: 32 word))
   \<and> sint (Square (- 46340 :: 32 word)) = 2147395600"
  using Square_in_range [of "- 46340 :: 32 word"] by (simp add: representable_def)

text \<open>
  C2. For every \<open>n\<close> whose cube is representable in the integer type, the value
  returned by \<open>Cube n\<close> is the mathematical product \<open>n * n * n\<close>.
\<close>

theorem Cube_in_range:
  fixes n :: "'a::len word"
  assumes "representable LENGTH('a) (sint n * sint n * sint n)"
  shows "sint (Cube n) = sint n * sint n * sint n"
  using assms by (simp add: sint_Cube wrap_signed_id)

theorem Cube_in_range_witness:
  "representable 32
     (sint (- 1290 :: 32 word) * sint (- 1290 :: 32 word) * sint (- 1290 :: 32 word))
   \<and> sint (Cube (- 1290 :: 32 word)) = - 2146689000"
  using Cube_in_range [of "- 1290 :: 32 word"] by (simp add: representable_def)

subsection \<open>Symmetries\<close>

text \<open>
  C3. Even symmetry: for every \<open>n\<close> whose square and whose negation are
  representable, negating the argument is the negation of integers and
  \<open>Square (- n)\<close> returns the same value as \<open>Square n\<close>.
\<close>

theorem Square_even:
  fixes n :: "'a::len word"
  assumes "representable LENGTH('a) (sint n * sint n)"
    and "representable LENGTH('a) (- sint n)"
  shows "sint (- n) = - sint n \<and> Square (- n) = Square n"
  using assms by (simp add: sint_neg_in_range Square_def)

theorem Square_even_witness:
  "representable 32 (sint (46340 :: 32 word) * sint (46340 :: 32 word))
   \<and> representable 32 (- sint (46340 :: 32 word))
   \<and> sint (- 46340 :: 32 word) = - 46340
   \<and> Square (- 46340 :: 32 word) = Square 46340"
  using Square_even [of "46340 :: 32 word"] by (simp add: representable_def)

text \<open>
  C4. Odd symmetry: for every \<open>n\<close> whose cube and whose negation are
  representable, negating the argument is the negation of integers and
  \<open>Cube (- n)\<close> returns the value \<open>- Cube n\<close> of the integer type.
\<close>

theorem Cube_odd:
  fixes n :: "'a::len word"
  assumes "representable LENGTH('a) (sint n * sint n * sint n)"
    and "representable LENGTH('a) (- sint n)"
  shows "sint (- n) = - sint n \<and> Cube (- n) = - Cube n"
  using assms by (simp add: sint_neg_in_range Cube_def)

theorem Cube_odd_witness:
  "representable 32
     (sint (1290 :: 32 word) * sint (1290 :: 32 word) * sint (1290 :: 32 word))
   \<and> representable 32 (- sint (1290 :: 32 word))
   \<and> sint (- 1290 :: 32 word) = - 1290
   \<and> Cube (- 1290 :: 32 word) = - Cube 1290"
  using Cube_odd [of "1290 :: 32 word"] by (simp add: representable_def)

subsection \<open>Overflow\<close>



subsection \<open>Purity\<close>

text \<open>
  C6. \<open>Square\<close> and \<open>Cube\<close> are deterministic and without side effect: whenever
  two runs of a body get the same argument \<open>n\<close>, from whatever globals \<open>g\<close> and
  \<open>g'\<close>, they end with the same outcome, which is the return of the function's
  value at \<open>n\<close>, and each run leaves the globals as it found them.
\<close>

theorem calls_deterministic:
  "(exec_stmt n Square_body g (out, g1) \<and> exec_stmt n Square_body g' (out', g2) \<longrightarrow>
      out = out' \<and> out = Returned (Square n) \<and> g1 = g \<and> g2 = g')
   \<and> (exec_stmt n Cube_body g (out, g1) \<and> exec_stmt n Cube_body g' (out', g2) \<longrightarrow>
      out = out' \<and> out = Returned (Cube n) \<and> g1 = g \<and> g2 = g')"
  by (simp add: exec_Square_body_iff exec_Cube_body_iff)

theorem calls_deterministic_witness:
  "exec_stmt (3 :: 32 word) Square_body (\<lambda>x. 0) (Returned 9, \<lambda>x. 0)
   \<and> exec_stmt (3 :: 32 word) Square_body (\<lambda>x. 5) (Returned 9, \<lambda>x. 5)
   \<and> exec_stmt (3 :: 32 word) Cube_body (\<lambda>x. 0) (Returned 27, \<lambda>x. 0)
   \<and> exec_stmt (3 :: 32 word) Cube_body (\<lambda>x. 5) (Returned 27, \<lambda>x. 5)
   \<and> Square (3 :: 32 word) = 9
   \<and> Cube (3 :: 32 word) = 27"
proof -
  have mul2: "eval_expr (3 :: 32 word) g (Mul Param Param) 9" for g
    using eval_Mul [OF eval_Param eval_Param, of 3 g] by simp
  have mul3: "eval_expr (3 :: 32 word) g (Mul (Mul Param Param) Param) 27" for g
    using eval_Mul [OF mul2 eval_Param, of g] by simp
  have sq: "exec_stmt (3 :: 32 word) Square_body g (Returned 9, g)" for g
    unfolding Square_body_def by (rule exec_Return [OF mul2])
  have cu: "exec_stmt (3 :: 32 word) Cube_body g (Returned 27, g)" for g
    unfolding Cube_body_def by (rule exec_Return [OF mul3])
  have "Square (3 :: 32 word) = 9"
    using sq [of "\<lambda>x. 0"] sq [of "\<lambda>x. 5"]
      calls_deterministic [of 3 "\<lambda>x. 0" "Returned 9" "\<lambda>x. 0" "\<lambda>x. 5" "Returned 9" "\<lambda>x. 5"]
    by auto
  moreover have "Cube (3 :: 32 word) = 27"
    using cu [of "\<lambda>x. 0"] cu [of "\<lambda>x. 5"]
      calls_deterministic [of 3 "\<lambda>x. 0" "Returned 27" "\<lambda>x. 0" "\<lambda>x. 5" "Returned 27" "\<lambda>x. 5"]
    by auto
  ultimately show ?thesis
    using sq cu by simp
qed

subsection \<open>Concrete scenarios\<close>

text \<open>
  C7. With 32-bit integers: \<open>Square 3\<close> is 9, \<open>Square (- 4)\<close> is 16, \<open>Cube 3\<close> is 27,
  \<open>Cube (- 2)\<close> is \<open>- 8\<close>, and both functions return 0 at 0.
\<close>

theorem scenarios:
  "sint (Square (3 :: 32 word)) = 9
   \<and> sint (Square (- 4 :: 32 word)) = 16
   \<and> sint (Cube (3 :: 32 word)) = 27
   \<and> sint (Cube (- 2 :: 32 word)) = - 8
   \<and> sint (Square (0 :: 32 word)) = 0
   \<and> sint (Cube (0 :: 32 word)) = 0"
  by (simp add: Square_def Cube_def)

subsection \<open>Totality\<close>


subsection \<open>Relating the two functions\<close>

text \<open>
  C9. At every argument, \<open>Cube n\<close> is \<open>Square n\<close> multiplied once more by \<open>n\<close> in
  the arithmetic of the integer type.
\<close>

theorem Cube_Square_times: "Cube n = Square n * n"
  by (simp add: Cube_def Square_def)

subsection \<open>Sign of a square\<close>

text \<open>
  C10. With 32-bit integers the square of \<open>n\<close> is representable exactly when
  \<open>\<bar>n\<bar> \<le> 46340\<close>, and then \<open>Square n\<close> is not negative. Outside that range
  some nonzero argument has a negative result and some nonzero argument has the
  result 0.
\<close>

theorem Square_sign_32:
  fixes n :: "32 word"
  shows "(representable 32 (sint n * sint n) \<longleftrightarrow> \<bar>sint n\<bar> \<le> 46340)
       \<and> (representable 32 (sint n * sint n) \<longrightarrow> 0 \<le> sint (Square n))
       \<and> (\<exists>m :: 32 word. m \<noteq> 0 \<and> \<not> representable 32 (sint m * sint m)
            \<and> sint (Square m) < 0)
       \<and> (\<exists>m :: 32 word. m \<noteq> 0 \<and> \<not> representable 32 (sint m * sint m)
            \<and> sint (Square m) = 0)"
proof (intro conjI)
  have lower: "- (2 ^ 31) \<le> sint n * sint n"
    by (rule order_trans [of _ 0]) simp_all
  show "representable 32 (sint n * sint n) \<longleftrightarrow> \<bar>sint n\<bar> \<le> 46340"
    using lower square_bound_32 [of "sint n"] by (simp add: representable_def)
  show "representable 32 (sint n * sint n) \<longrightarrow> 0 \<le> sint (Square n)"
  proof
    assume "representable 32 (sint n * sint n)"
    then have "wrap_signed 32 (sint n * sint n) = sint n * sint n"
      by (rule wrap_signed_id) simp
    then show "0 \<le> sint (Square n)"
      using sint_Square [of n] by simp
  qed
  have "(46341 :: 32 word) \<noteq> 0
        \<and> \<not> representable 32 (sint (46341 :: 32 word) * sint (46341 :: 32 word))
        \<and> sint (Square (46341 :: 32 word)) < 0"
    by (simp add: representable_def Square_def)
  then show "\<exists>m :: 32 word. m \<noteq> 0 \<and> \<not> representable 32 (sint m * sint m)
      \<and> sint (Square m) < 0"
    by (rule exI)
  have "(65536 :: 32 word) \<noteq> 0
        \<and> \<not> representable 32 (sint (65536 :: 32 word) * sint (65536 :: 32 word))
        \<and> sint (Square (65536 :: 32 word)) = 0"
    by (simp add: representable_def Square_def)
  then show "\<exists>m :: 32 word. m \<noteq> 0 \<and> \<not> representable 32 (sint m * sint m)
      \<and> sint (Square m) = 0"
    by (rule exI)
qed

theorem Square_sign_32_witness:
  "\<bar>sint (- 46340 :: 32 word)\<bar> \<le> 46340
   \<and> representable 32 (sint (- 46340 :: 32 word) * sint (- 46340 :: 32 word))
   \<and> 0 \<le> sint (Square (- 46340 :: 32 word))"
  using Square_sign_32 [of "- 46340 :: 32 word"] by simp

end
